theory Spec2Isabelle
  imports Main "HOL-Library.Sublist" "HOL-Library.AList"
begin

section \<open>order\_log\_files.py: organising log files and counting error matches\<close>

text \<open>
  The script moves the log files of a directory into one directory per service under
  \<^verbatim>\<open>DEST_DIR\<close> (\<^verbatim>\<open>organize_logs\<close>) and then writes, for every log file below
  \<^verbatim>\<open>DEST_DIR\<close>, the number of matches of an error pattern into a report
  (\<^verbatim>\<open>find_error_in_logs\<close>). The two regular expressions, the file system calls and
  the top-level block are embedded below, in that order.

  Text is a \<^typ>\<open>string\<close>: one \<^typ>\<open>char\<close> per character, ASCII. Python's Unicode
  classes (\<^verbatim>\<open>\w\<close> on letters beyond ASCII) are outside the model.
\<close>

subsection \<open>The file name pattern\<close>

text \<open>
  \<^verbatim>\<open>log_format_regex = re.compile("(.*)_([0-9]{4}-[0-9]{2}-[0-9]{2}).log")\<close>

  The pieces of the pattern that cannot backtrack read a prefix of the text and return
  the rest, or \<open>None\<close> when they do not match.
\<close>

definition newline :: char where
  "newline = CHR 0x0A"

definition is_digit :: "char \<Rightarrow> bool" where
  "is_digit c = (c \<in> set ''0123456789'')"

text \<open>\<^verbatim>\<open>[0-9]{n}\<close>\<close>

fun match_digits :: "nat \<Rightarrow> string \<Rightarrow> string option" where
  "match_digits 0 xs = Some xs"
| "match_digits (Suc n) [] = None"
| "match_digits (Suc n) (c # cs) = (if is_digit c then match_digits n cs else None)"

text \<open>A literal run of characters.\<close>

fun match_lit :: "string \<Rightarrow> string \<Rightarrow> string option" where
  "match_lit [] xs = Some xs"
| "match_lit (p # ps) [] = None"
| "match_lit (p # ps) (c # cs) = (if c = p then match_lit ps cs else None)"

text \<open>The dot: any character but a line break (the pattern has no \<^verbatim>\<open>DOTALL\<close>).\<close>

fun match_dot :: "string \<Rightarrow> string option" where
  "match_dot [] = None"
| "match_dot (c # cs) = (if c \<noteq> newline then Some cs else None)"

text \<open>\<^verbatim>\<open>[0-9]{4}-[0-9]{2}-[0-9]{2}\<close>, the second group.\<close>

definition match_date :: "string \<Rightarrow> string option" where
  "match_date xs =
     Option.bind (match_digits 4 xs) (\<lambda>r1.
     Option.bind (match_lit ''-'' r1) (\<lambda>r2.
     Option.bind (match_digits 2 r2) (\<lambda>r3.
     Option.bind (match_lit ''-'' r3) (\<lambda>r4.
     match_digits 2 r4))))"

text \<open>
  What follows the first group: \<^verbatim>\<open>_([0-9]{4}-[0-9]{2}-[0-9]{2}).log\<close>. The dot before
  \<^verbatim>\<open>log\<close> is not escaped in the source, so it is the dot of \<open>match_dot\<close>.
\<close>

definition match_tail :: "string \<Rightarrow> string option" where
  "match_tail xs =
     Option.bind (match_lit ''_'' xs) (\<lambda>r1.
     Option.bind (match_date r1) (\<lambda>r2.
     Option.bind (match_dot r2) (\<lambda>r3.
     match_lit ''log'' r3)))"

text \<open>
  The whole pattern tried at the head of the text. The first group \<^verbatim>\<open>(.*)\<close> is greedy:
  it takes one more character whenever the rest of the pattern still matches after it,
  and gives characters back one at a time otherwise. The result is \<^verbatim>\<open>group(1)\<close>.
\<close>

fun match_here :: "string \<Rightarrow> string option" where
  "match_here [] = (if match_tail [] \<noteq> None then Some [] else None)"
| "match_here (c # cs) =
     (case (if c \<noteq> newline then match_here cs else None) of
        Some g \<Rightarrow> Some (c # g)
      | None \<Rightarrow> (if match_tail (c # cs) \<noteq> None then Some [] else None))"

text \<open>
  \<^verbatim>\<open>log_regex.search(str(log.name))\<close>: the leftmost position at which the pattern
  matches; \<open>None\<close> is Python's \<^verbatim>\<open>None\<close>, \<open>Some g\<close> a match object whose
  \<^verbatim>\<open>group(1)\<close> is \<open>g\<close>.
\<close>

fun log_format_regex_search :: "string \<Rightarrow> string option" where
  "log_format_regex_search [] = match_here []"
| "log_format_regex_search (c # cs) =
     (case match_here (c # cs) of
        Some g \<Rightarrow> Some g
      | None \<Rightarrow> log_format_regex_search cs)"



subsection \<open>The error pattern\<close>

text \<open>
  \<^verbatim>\<open>log_error_regex = re.compile(r"\berror\b", re.IGNORECASE)\<close>

  A cursor is a position in the text: the character before it (\<open>None\<close> at the start)
  and the text from it on. Each piece of the pattern moves the cursor or fails.
\<close>

type_synonym cursor = "char option \<times> string"

text \<open>\<^verbatim>\<open>\w\<close>: a letter, a digit or the underscore.\<close>

definition is_word_char :: "char \<Rightarrow> bool" where
  "is_word_char c =
     (c \<in> set ''abcdefghijklmnopqrstuvwxyzABCDEFGHIJKLMNOPQRSTUVWXYZ0123456789_'')"

text \<open>
  \<^verbatim>\<open>\b\<close>: the characters on the two sides of the position differ in being word
  characters; the outside of the text counts as a non-word character.
\<close>

definition word_boundary :: "cursor \<Rightarrow> cursor option" where
  "word_boundary k =
     (let word_left = (case fst k of None \<Rightarrow> False | Some c \<Rightarrow> is_word_char c);
          word_right = (case snd k of [] \<Rightarrow> False | c # _ \<Rightarrow> is_word_char c)
      in if word_left \<noteq> word_right then Some k else None)"

text \<open>\<^verbatim>\<open>re.IGNORECASE\<close> compares letters with their case folded.\<close>

definition lower :: "char \<Rightarrow> char" where
  "lower c =
     (case map_of (zip ''ABCDEFGHIJKLMNOPQRSTUVWXYZ'' ''abcdefghijklmnopqrstuvwxyz'') c of
        None \<Rightarrow> c
      | Some l \<Rightarrow> l)"

fun match_lit_ci :: "string \<Rightarrow> cursor \<Rightarrow> cursor option" where
  "match_lit_ci [] k = Some k"
| "match_lit_ci (p # ps) (prev, []) = None"
| "match_lit_ci (p # ps) (prev, c # cs) =
     (if lower c = lower p then match_lit_ci ps (Some c, cs) else None)"

text \<open>The whole pattern at the cursor.\<close>

definition match_error :: "cursor \<Rightarrow> cursor option" where
  "match_error k =
     Option.bind (word_boundary k) (\<lambda>k1.
     Option.bind (match_lit_ci ''error'' k1) word_boundary)"

text \<open>
  \<^verbatim>\<open>len(error_regex.findall(text))\<close>: the matches are looked for from left to right;
  after a match the scan goes on behind it, otherwise one character further.
\<close>

function findall_count :: "cursor \<Rightarrow> nat" where
  "findall_count (prev, []) = 0"
| "findall_count (prev, c # cs) =
     (case match_error (prev, c # cs) of
        Some k \<Rightarrow> Suc (findall_count k)
      | None \<Rightarrow> findall_count (Some c, cs))"
  by pat_completeness auto
termination
proof (relation "measure (\<lambda>k. length (snd k))")
  fix prev :: "char option" and c cs k
  assume m: "match_error (prev, c # cs) = Some k"
  have lit: "match_lit_ci p k1 = Some k2 \<Longrightarrow> length (snd k1) = length p + length (snd k2)"
    for p k1 k2
    by (induction p k1 rule: match_lit_ci.induct) (auto split: if_splits)
  from m obtain k1 where "match_lit_ci ''error'' (prev, c # cs) = Some k1" "snd k = snd k1"
    by (auto simp: match_error_def word_boundary_def Let_def Option.bind_eq_Some_conv
        split: if_splits)
  with lit [of "''error''" "(prev, c # cs)" k1]
  show "(k, prev, c # cs) \<in> measure (\<lambda>k. length (snd k))"
    by simp
qed auto

definition error_count :: "string \<Rightarrow> nat" where
  "error_count text = findall_count (None, text)"





subsection \<open>The file system\<close>

text \<open>
  A path is the list of its components below the root; \<open>[]\<close> is the root. The file
  system is a table from paths to nodes, in the order in which the system lists the
  entries. A file has its text and a flag: the process may read and write it. A directory
  has a flag: the process may create entries in it. Paths are compared as they are
  written: links and \<^verbatim>\<open>..\<close> are outside the model.
\<close>

type_synonym path = "string list"

datatype node = File (content: string) (perm: bool) | Dir (perm: bool)

type_synonym fs = "(path \<times> node) list"

text \<open>The exceptions the script can meet.\<close>

datatype exn =
    AttributeError
  | FileNotFoundError
  | PermissionError
  | FileExistsError
  | IsADirectoryError
  | NotADirectoryError
  | OSError
  | SystemExit nat

definition lookup :: "fs \<Rightarrow> path \<Rightarrow> node option" where
  "lookup fs p = map_of fs p"

text \<open>\<^verbatim>\<open>Path.exists()\<close> and \<^verbatim>\<open>Path.is_dir()\<close>\<close>

definition path_exists :: "fs \<Rightarrow> path \<Rightarrow> bool" where
  "path_exists fs p = (lookup fs p \<noteq> None)"

definition is_dir :: "fs \<Rightarrow> path \<Rightarrow> bool" where
  "is_dir fs p = (case lookup fs p of Some (Dir b) \<Rightarrow> True | _ \<Rightarrow> False)"

text \<open>\<^verbatim>\<open>Path.name\<close>: the last component, empty for the root.\<close>

definition name :: "path \<Rightarrow> string" where
  "name p = (if p = [] then [] else last p)"

text \<open>
  \<^verbatim>\<open>os.mkdir(p)\<close>: \<open>p\<close> must not exist, and its parent has to be a directory
  the process may write.
\<close>

definition os_mkdir :: "path \<Rightarrow> fs \<Rightarrow> exn + fs" where
  "os_mkdir p fs =
     (if lookup fs p \<noteq> None then Inl FileExistsError
      else (case lookup fs (butlast p) of
              None \<Rightarrow> Inl FileNotFoundError
            | Some (File c b) \<Rightarrow> Inl NotADirectoryError
            | Some (Dir b) \<Rightarrow>
                if \<not> b then Inl PermissionError
                else Inr (fs @ [(p, Dir True)])))"

text \<open>
  \<^verbatim>\<open>Path.mkdir(parents=True, exist_ok=...)\<close>, as pathlib writes it: try
  \<^verbatim>\<open>os.mkdir\<close>; when the parent is missing, make the parent (with
  \<^verbatim>\<open>exist_ok=True\<close>) and try once more without \<^verbatim>\<open>parents\<close>; any other
  error is dropped when \<^verbatim>\<open>exist_ok\<close> holds and the path is a directory.
\<close>

definition mkdir_single :: "bool \<Rightarrow> path \<Rightarrow> fs \<Rightarrow> exn + fs" where
  "mkdir_single exist_ok p fs =
     (case os_mkdir p fs of
        Inr fs' \<Rightarrow> Inr fs'
      | Inl e \<Rightarrow>
          if e = FileNotFoundError then Inl e
          else if exist_ok \<and> is_dir fs p then Inr fs
          else Inl e)"

function mkdir :: "bool \<Rightarrow> path \<Rightarrow> fs \<Rightarrow> exn + fs" where
  "mkdir exist_ok p fs =
     (case os_mkdir p fs of
        Inr fs' \<Rightarrow> Inr fs'
      | Inl e \<Rightarrow>
          if e = FileNotFoundError then
            (if p = [] then Inl e
             else (case mkdir True (butlast p) fs of
                     Inl e' \<Rightarrow> Inl e'
                   | Inr fs' \<Rightarrow> mkdir_single exist_ok p fs'))
          else if exist_ok \<and> is_dir fs p then Inr fs
          else Inl e)"
  by pat_completeness auto
termination
  by (relation "measure (\<lambda>(exist_ok, p, fs). length p)") auto

declare mkdir.simps [simp del]

text \<open>
  \<^verbatim>\<open>os.rename(src, dst)\<close> on the table: the entry \<open>src\<close> and everything below it
  goes below \<open>dst\<close>; what was at \<open>dst\<close> is replaced.
\<close>

definition relocate :: "path \<Rightarrow> path \<Rightarrow> fs \<Rightarrow> fs" where
  "relocate src dst fs =
     map (\<lambda>(p, n). (if prefix src p then dst @ drop (length src) p else p, n))
       (filter (\<lambda>(p, n). \<not> prefix dst p) fs)"

text \<open>
  \<^verbatim>\<open>shutil.move(src, dst)\<close> for a \<open>dst\<close> that does not exist, the only case the
  script reaches (the call stands in the \<^verbatim>\<open>else\<close> of \<^verbatim>\<open>log_dest.exists()\<close>): a
  rename. The source has to exist, the directory of the destination has to be a directory
  the process may write, and a directory cannot go below itself. Taking the entry out of
  its old directory is always permitted. A move that fails leaves the table as it was.
\<close>

definition move :: "path \<Rightarrow> path \<Rightarrow> fs \<Rightarrow> exn + fs" where
  "move src dst fs =
     (case lookup fs src of
        None \<Rightarrow> Inl FileNotFoundError
      | Some n \<Rightarrow>
          (case lookup fs (butlast dst) of
             None \<Rightarrow> Inl FileNotFoundError
           | Some (File c b) \<Rightarrow> Inl NotADirectoryError
           | Some (Dir b) \<Rightarrow>
               if \<not> b then Inl PermissionError
               else if prefix src dst then Inl OSError
               else Inr (relocate src dst fs)))"

text \<open>\<^verbatim>\<open>open(p, 'w')\<close>: the file is created, or emptied when it exists.\<close>

definition open_w :: "path \<Rightarrow> fs \<Rightarrow> exn + fs" where
  "open_w p fs =
     (case lookup fs p of
        Some (Dir b) \<Rightarrow> Inl IsADirectoryError
      | Some (File c b) \<Rightarrow>
          if b then Inr (AList.update p (File [] b) fs) else Inl PermissionError
      | None \<Rightarrow>
          (case lookup fs (butlast p) of
             None \<Rightarrow> Inl FileNotFoundError
           | Some (File c b) \<Rightarrow> Inl NotADirectoryError
           | Some (Dir b) \<Rightarrow>
               if b then Inr (AList.update p (File [] True) fs) else Inl PermissionError))"

text \<open>\<^verbatim>\<open>file.write(s)\<close> on the file opened at \<open>p\<close>: the text is appended.\<close>

definition file_write :: "path \<Rightarrow> string \<Rightarrow> fs \<Rightarrow> fs" where
  "file_write p s fs =
     (case lookup fs p of
        Some (File c b) \<Rightarrow> AList.update p (File (c @ s) b) fs
      | _ \<Rightarrow> fs)"

text \<open>\<^verbatim>\<open>Path.read_text()\<close>\<close>

definition read_text :: "fs \<Rightarrow> path \<Rightarrow> exn + string" where
  "read_text fs p =
     (case lookup fs p of
        None \<Rightarrow> Inl FileNotFoundError
      | Some (Dir b) \<Rightarrow> Inl IsADirectoryError
      | Some (File c b) \<Rightarrow> if b then Inr c else Inl PermissionError)"

text \<open>
  \<^verbatim>\<open>Path.glob('*.log')\<close>: the entries of the directory whose name ends in
  \<^verbatim>\<open>.log\<close>; \<^verbatim>\<open>Path.rglob('*.log')\<close>: those at any depth below it. Both are
  generators: a generator is the list of the items it has not yet given.
\<close>

definition glob_log :: "fs \<Rightarrow> path \<Rightarrow> path list" where
  "glob_log fs d = [p \<leftarrow> map fst fs. p \<noteq> [] \<and> butlast p = d \<and> suffix ''.log'' (name p)]"

definition rglob_log :: "fs \<Rightarrow> path \<Rightarrow> path list" where
  "rglob_log fs d = [p \<leftarrow> map fst fs. strict_prefix d p \<and> suffix ''.log'' (name p)]"

text \<open>
  \<^verbatim>\<open>list(g)\<close> and \<^verbatim>\<open>for item in g\<close> take every item the generator still has
  and leave it exhausted. The result is the items and the generator afterwards.
\<close>

definition consume :: "'a list \<Rightarrow> 'a list \<times> 'a list" where
  "consume g = (g, [])"

text \<open>
  A file system of the real world: every entry but the root lies in a directory.
\<close>

definition well_formed :: "fs \<Rightarrow> bool" where
  "well_formed fs = list_all (\<lambda>(p, n). p = [] \<or> is_dir fs (butlast p)) fs"

text \<open>The entries of directories that a \<^verbatim>\<open>mkdir\<close> adds to the table.\<close>

definition new_dirs :: "path list \<Rightarrow> fs" where
  "new_dirs qs = map (\<lambda>q. (q, Dir True)) qs"

text \<open>A file the process can read, and its text (empty when it cannot be read).\<close>

definition readable :: "fs \<Rightarrow> path \<Rightarrow> bool" where
  "readable fs p = (case read_text fs p of Inr c \<Rightarrow> True | Inl e \<Rightarrow> False)"

definition file_text :: "fs \<Rightarrow> path \<Rightarrow> string" where
  "file_text fs p = (case read_text fs p of Inr c \<Rightarrow> c | Inl e \<Rightarrow> [])"

subsection \<open>The script\<close>

text \<open>\<^verbatim>\<open>DEST_DIR = Path('/home/arengifo/logs/dest')\<close>\<close>

definition DEST_DIR :: path where
  "DEST_DIR = [''home'', ''arengifo'', ''logs'', ''dest'']"

text \<open>
  What the script prints. Each message stands for one \<^verbatim>\<open>print\<close> of the source,
  with the values it formats.
\<close>

datatype message =
    Must_specify
  | Cannot_access path
  | Not_a_directory path
  | Aborted
  | Cannot_access_dest
  | Cannot_create exn
  | No_log_files path
  | Print_item path
  | Print_list "path list"
  | Warning_exists path
  | Error exn
  | Cannot_access_error path exn

text \<open>The world of the script: the file system and the two output streams.\<close>

record world =
  disk :: fs
  stdout :: "message list"
  stderr :: "message list"

definition print_err :: "message \<Rightarrow> world \<Rightarrow> world" where
  "print_err m w = w\<lparr>stderr := stderr w @ [m]\<rparr>"

definition print_out :: "message \<Rightarrow> world \<Rightarrow> world" where
  "print_out m w = w\<lparr>stdout := stdout w @ [m]\<rparr>"

text \<open>
  \<^verbatim>\<open>Path(log_service_name)\<close> below a directory: the empty name and \<^verbatim>\<open>.\<close> add no
  component.
\<close>

definition service_path :: "string \<Rightarrow> path" where
  "service_path s = (if s = [] \<or> s = ''.'' then [] else [s])"

text \<open>
  One pass of the loop of \<^verbatim>\<open>organize_logs\<close>, for the file \<open>log\<close>. The result is the
  exception that leaves the loop, if any, and the world. The search and the
  \<^verbatim>\<open>mkdir\<close> stand before the \<^verbatim>\<open>try\<close>: what they raise leaves the function.
  \<^verbatim>\<open>group(1)\<close> of \<^verbatim>\<open>None\<close> raises \<^verbatim>\<open>AttributeError\<close>. Inside the
  \<^verbatim>\<open>try\<close>, \<^verbatim>\<open>FileNotFoundError\<close> and \<^verbatim>\<open>PermissionError\<close> are printed.
\<close>

definition organize_log :: "(string \<Rightarrow> string option) \<Rightarrow> path \<Rightarrow> world \<Rightarrow> exn option \<times> world" where
  "organize_log log_regex log w =
     (case log_regex (name log) of
        None \<Rightarrow> (Some AttributeError, w)
      | Some log_service_name \<Rightarrow>
          (let log_dest = DEST_DIR @ service_path log_service_name @ [name log];
               log_service_dir = DEST_DIR @ service_path log_service_name
           in case mkdir True log_service_dir (disk w) of
                Inl e \<Rightarrow> (Some e, w)
              | Inr fs1 \<Rightarrow>
                  (let w1 = w\<lparr>disk := fs1\<rparr>
                   in if path_exists fs1 log_dest
                      then (None, print_err (Warning_exists log_dest) w1)
                      else (case move log log_dest fs1 of
                              Inr fs2 \<Rightarrow> (None, w1\<lparr>disk := fs2\<rparr>)
                            | Inl e \<Rightarrow>
                                if e = FileNotFoundError \<or> e = PermissionError
                                then (None, print_err (Error e) w1)
                                else (Some e, w1)))))"

text \<open>\<^verbatim>\<open>organize_logs(logs, log_regex)\<close>: the loop over the generator \<open>logs\<close>.\<close>

fun organize_logs :: "path list \<Rightarrow> (string \<Rightarrow> string option) \<Rightarrow> world \<Rightarrow> exn option \<times> world" where
  "organize_logs [] log_regex w = (None, w)"
| "organize_logs (log # logs) log_regex w =
     (case organize_log log_regex log w of
        (Some e, w') \<Rightarrow> (Some e, w')
      | (None, w') \<Rightarrow> organize_logs logs log_regex w')"

text \<open>\<^verbatim>\<open>f"{n}"\<close> for a count: the decimal digits.\<close>

fun str_nat :: "nat \<Rightarrow> string" where
  "str_nat n =
     (if n < 10 then [''0123456789'' ! n]
      else str_nat (n div 10) @ [''0123456789'' ! (n mod 10)])"

declare str_nat.simps [simp del]

text \<open>\<^verbatim>\<open>f"{logfile.name}: {n} errores\n"\<close>\<close>

definition report_line :: "string \<Rightarrow> nat \<Rightarrow> string" where
  "report_line file_name n = file_name @ '': '' @ str_nat n @ '' errores'' @ [newline]"

text \<open>
  The loop of \<^verbatim>\<open>find_error_in_logs\<close> over the generator of \<^verbatim>\<open>rglob\<close>, with the
  report open at \<open>report_file\<close>. An exception of \<^verbatim>\<open>read_text\<close> leaves the loop.
\<close>

fun audit_logs :: "path list \<Rightarrow> (string \<Rightarrow> nat) \<Rightarrow> path \<Rightarrow> fs \<Rightarrow> exn option \<times> fs" where
  "audit_logs [] error_regex report_file fs = (None, fs)"
| "audit_logs (logfile # logfiles) error_regex report_file fs =
     (case read_text fs logfile of
        Inl e \<Rightarrow> (Some e, fs)
      | Inr text \<Rightarrow>
          audit_logs logfiles error_regex report_file
            (file_write report_file (report_line (name logfile) (error_regex text)) fs))"

text \<open>
  The three \<^verbatim>\<open>except\<close> clauses of \<^verbatim>\<open>find_error_in_logs\<close>, which stand around the
  whole \<^verbatim>\<open>with\<close> block.
\<close>

definition audit_except :: "exn \<Rightarrow> world \<Rightarrow> exn option \<times> world" where
  "audit_except e w =
     (if e = IsADirectoryError \<or> e = FileNotFoundError \<or> e = PermissionError
      then (None, print_err (Error e) w)
      else (Some e, w))"

text \<open>
  \<^verbatim>\<open>find_error_in_logs(new_logdir, error_regex, report_file)\<close>; \<open>error_regex\<close> is
  the count \<^verbatim>\<open>len(error_regex.findall(...))\<close> of the pattern.
\<close>

definition find_error_in_logs :: "path \<Rightarrow> (string \<Rightarrow> nat) \<Rightarrow> path \<Rightarrow> world \<Rightarrow> exn option \<times> world" where
  "find_error_in_logs new_logdir error_regex report_file w =
     (case open_w report_file (disk w) of
        Inl e \<Rightarrow> audit_except e w
      | Inr fs1 \<Rightarrow>
          (case audit_logs (rglob_log fs1 new_logdir) error_regex report_file fs1 of
             (None, fs2) \<Rightarrow> (None, w\<lparr>disk := fs2\<rparr>)
           | (Some e, fs2) \<Rightarrow> audit_except e (w\<lparr>disk := fs2\<rparr>)))"

text \<open>
  The last \<^verbatim>\<open>try\<close> of the top-level block (lines 106 to 120). The generator
  \<open>logs_found\<close> is consumed by \<^verbatim>\<open>list(logs_found)\<close>, by the \<^verbatim>\<open>for\<close> loop that
  prints and by the second \<^verbatim>\<open>list(logs_found)\<close>, in this order; what is left of it goes
  to \<^verbatim>\<open>organize_logs\<close>. \<^verbatim>\<open>sys.exit\<close> raises \<^verbatim>\<open>SystemExit\<close>, which the
  \<^verbatim>\<open>except PermissionError\<close> does not catch.
\<close>

definition scan_except :: "path \<Rightarrow> exn option \<times> world \<Rightarrow> exn option \<times> world" where
  "scan_except log_dir_path r =
     (case r of
        (Some e, w) \<Rightarrow>
          if e = PermissionError then (None, print_err (Cannot_access_error log_dir_path e) w)
          else (Some e, w)
      | (None, w) \<Rightarrow> (None, w))"

definition scan_logs :: "path \<Rightarrow> path \<Rightarrow> world \<Rightarrow> exn option \<times> world" where
  "scan_logs log_dir_path report_file w =
     scan_except log_dir_path
       (let logs_found = glob_log (disk w) log_dir_path;
            (found, logs_found1) = consume logs_found
        in if length found = 0
           then (Some (SystemExit 1), print_err (No_log_files log_dir_path) w)
           else
             (let (items, logs_found2) = consume logs_found1;
                  w1 = w\<lparr>stdout := stdout w @ map Print_item items\<rparr>;
                  (printed, logs_found3) = consume logs_found2;
                  w2 = print_out (Print_list printed) w1
              in case organize_logs logs_found3 log_format_regex_search w2 of
                   (Some e, w3) \<Rightarrow> (Some e, w3)
                 | (None, w3) \<Rightarrow> find_error_in_logs DEST_DIR error_count report_file w3))"

text \<open>
  The top-level block. \<open>argv1\<close> is \<^verbatim>\<open>Path(sys.argv[1])\<close>, \<open>None\<close> when the
  script has no argument; \<open>cwd\<close> is \<^verbatim>\<open>Path.cwd()\<close>; \<open>overwrite\<close> and \<open>create\<close>
  are the operator's answers to the two \<^verbatim>\<open>inputYesNo\<close> prompts (\<open>True\<close> for yes),
  read only when the prompt is reached.
\<close>

definition ensure_dest :: "bool \<Rightarrow> world \<Rightarrow> exn option \<times> world" where
  "ensure_dest create w =
     (if \<not> path_exists (disk w) DEST_DIR then
        (let w1 = print_err Cannot_access_dest w
         in if create then
              (case mkdir False DEST_DIR (disk w1) of
                 Inr fs1 \<Rightarrow> (None, w1\<lparr>disk := fs1\<rparr>)
               | Inl e \<Rightarrow>
                   if e = PermissionError
                   then (Some (SystemExit 1), print_err (Cannot_create e) w1)
                   else (Some e, w1))
            else (Some (SystemExit 1), print_out Aborted w1))
      else (None, w))"

definition main :: "path option \<Rightarrow> path \<Rightarrow> bool \<Rightarrow> bool \<Rightarrow> world \<Rightarrow> exn option \<times> world" where
  "main argv1 cwd overwrite create w =
     (case argv1 of
        None \<Rightarrow> (Some (SystemExit 1), print_err Must_specify w)
      | Some log_dir_path \<Rightarrow>
          (let REPORT_FILE = cwd @ [''reporte.txt'']
           in if \<not> path_exists (disk w) log_dir_path
              then (Some (SystemExit 1), print_err (Cannot_access log_dir_path) w)
              else if \<not> is_dir (disk w) log_dir_path
              then (Some (SystemExit 1), print_err (Not_a_directory log_dir_path) w)
              else if path_exists (disk w) REPORT_FILE \<and> \<not> overwrite
              then (Some (SystemExit 1), print_out Aborted w)
              else (case ensure_dest create w of
                      (Some e, w1) \<Rightarrow> (Some e, w1)
                    | (None, w1) \<Rightarrow> scan_logs log_dir_path REPORT_FILE w1)))"

text \<open>
  The exit status of the process: 0 at the end of the block, the argument of
  \<^verbatim>\<open>sys.exit\<close>, and 1 for an exception nobody catches.
\<close>

definition exit_status :: "exn option \<Rightarrow> nat" where
  "exit_status r = (case r of None \<Rightarrow> 0 | Some (SystemExit n) \<Rightarrow> n | Some _ \<Rightarrow> 1)"

text \<open>
  A run that at most made the directories on the way to \<^verbatim>\<open>DEST_DIR\<close>: every path is
  what it was, or it did not exist and is now such a directory. No file was moved, written
  or created.
\<close>

definition only_new_dirs :: "fs \<Rightarrow> fs \<Rightarrow> bool" where
  "only_new_dirs fs fs' =
     (\<forall>p. lookup fs' p = lookup fs p \<or>
          (lookup fs p = None \<and> lookup fs' p = Some (Dir True) \<and> prefix p DEST_DIR))"



subsection \<open>Example worlds\<close>

text \<open>
  The end-to-end scenario of the specification: two log files of the service \<open>auth\<close>
  in a source directory, each with the word \<open>Error\<close> once, and an empty destination.
\<close>

definition scenario_disk :: fs where
  "scenario_disk =
     [([], Dir True), ([''home''], Dir True), ([''home'', ''arengifo''], Dir True),
      ([''home'', ''arengifo'', ''logs''], Dir True),
      ([''home'', ''arengifo'', ''logs'', ''dest''], Dir True),
      ([''src''], Dir True),
      ([''src'', ''auth_2024-01-01.log''], File ''Error one'' True),
      ([''src'', ''auth_2024-01-02.log''], File ''Error two'' True)]"

definition scenario_world :: world where
  "scenario_world = \<lparr>disk = scenario_disk, stdout = [], stderr = []\<rparr>"

text \<open>A source directory with a log file whose name has no date.\<close>

definition source_disk :: fs where
  "source_disk =
     [([], Dir True), ([''home''], Dir True), ([''home'', ''arengifo''], Dir True),
      ([''home'', ''arengifo'', ''logs''], Dir True),
      ([''home'', ''arengifo'', ''logs'', ''dest''], Dir True),
      ([''src''], Dir True),
      ([''src'', ''notes.log''], File ''no error here'' True),
      ([''src'', ''auth_2024-01-01.log''], File ''Error one'' True)]"

definition source_world :: world where
  "source_world = \<lparr>disk = source_disk, stdout = [], stderr = []\<rparr>"

text \<open>A destination tree whose first log file the process may not read.\<close>

definition audit_disk :: fs where
  "audit_disk =
     [([], Dir True), ([''home''], Dir True), ([''home'', ''arengifo''], Dir True),
      ([''home'', ''arengifo'', ''logs''], Dir True),
      ([''home'', ''arengifo'', ''logs'', ''dest''], Dir True),
      ([''home'', ''arengifo'', ''logs'', ''dest'', ''auth''], Dir True),
      ([''home'', ''arengifo'', ''logs'', ''dest'', ''auth'', ''a.log''], File ''error'' False),
      ([''home'', ''arengifo'', ''logs'', ''dest'', ''auth'', ''b.log''],
       File ''error error'' True)]"

definition audit_world :: world where
  "audit_world = \<lparr>disk = audit_disk, stdout = [], stderr = []\<rparr>"

text \<open>
  The collision scenario of the specification: the destination already has the file that
  a file of the source directory maps to.
\<close>

definition collision_disk :: fs where
  "collision_disk =
     [([], Dir True), ([''home''], Dir True), ([''home'', ''arengifo''], Dir True),
      ([''home'', ''arengifo'', ''logs''], Dir True),
      ([''home'', ''arengifo'', ''logs'', ''dest''], Dir True),
      ([''home'', ''arengifo'', ''logs'', ''dest'', ''auth''], Dir True),
      ([''home'', ''arengifo'', ''logs'', ''dest'', ''auth'', ''auth_2024-01-01.log''],
       File ''first copy'' True),
      ([''src''], Dir True),
      ([''src'', ''auth_2024-01-01.log''], File ''second copy'' True)]"

definition collision_world :: world where
  "collision_world = \<lparr>disk = collision_disk, stdout = [], stderr = []\<rparr>"

text \<open>A source directory without a log file, and no destination yet.\<close>

definition empty_source_disk :: fs where
  "empty_source_disk =
     [([], Dir True), ([''home''], Dir True), ([''src''], Dir True),
      ([''src'', ''notes.txt''], File ''error'' True)]"

definition empty_source_world :: world where
  "empty_source_world = \<lparr>disk = empty_source_disk, stdout = [], stderr = []\<rparr>"

text \<open>
  The report scenario of the specification: \<open>a.log\<close> with two matches, \<open>b.log\<close> with
  none, and a report left by an earlier run.
\<close>

definition report_disk :: fs where
  "report_disk =
     [([], Dir True), ([''home''], Dir True), ([''home'', ''arengifo''], Dir True),
      ([''home'', ''arengifo'', ''logs''], Dir True),
      ([''home'', ''arengifo'', ''logs'', ''dest''], Dir True),
      ([''home'', ''arengifo'', ''logs'', ''dest'', ''svc''], Dir True),
      ([''home'', ''arengifo'', ''logs'', ''dest'', ''svc'', ''a.log''],
       File ''Error: disk full; retry after error'' True),
      ([''home'', ''arengifo'', ''logs'', ''dest'', ''svc'', ''b.log''], File ''all fine'' True),
      ([''home'', ''reporte.txt''], File ''an old report'' True)]"

definition report_world :: world where
  "report_world = \<lparr>disk = report_disk, stdout = [], stderr = []\<rparr>"


section \<open>Properties\<close>

subsection \<open>The file name pattern\<close>




















subsection \<open>The error pattern\<close>















subsection \<open>The top-level block and the generator\<close>

text \<open>
  What is left of the generator when \<^verbatim>\<open>organize_logs\<close> gets it is nothing: the block
  goes from the listing straight to the audit.
\<close>

lemma scan_logs_routes_nothing:
  "scan_logs log_dir_path report_file w =
     scan_except log_dir_path
       (if glob_log (disk w) log_dir_path = []
        then (Some (SystemExit 1), print_err (No_log_files log_dir_path) w)
        else find_error_in_logs DEST_DIR error_count report_file (print_out (Print_list []) w))"
  by (simp add: scan_logs_def consume_def Let_def)

text \<open>
  C1 asks that every log file found is routed once before the audit. On the scenario of
  the specification the block finds the two files, prints the empty list, routes neither
  (both stay in the source directory, the destination gets no service directory), and
  ends normally after an audit that writes an empty report. \<^verbatim>\<open>organize_logs\<close>
  itself, given the two files, moves them: what it gets from the block is the exhausted
  generator.
\<close>

theorem main_routes_no_file:
  "(let r = main (Some [''src'']) [''home''] True True scenario_world
    in fst r = None \<and>
       glob_log scenario_disk [''src''] =
         [[''src'', ''auth_2024-01-01.log''], [''src'', ''auth_2024-01-02.log'']] \<and>
       lookup (disk (snd r)) [''src'', ''auth_2024-01-01.log''] = Some (File ''Error one'' True) \<and>
       lookup (disk (snd r)) [''src'', ''auth_2024-01-02.log''] = Some (File ''Error two'' True) \<and>
       lookup (disk (snd r)) (DEST_DIR @ [''auth'']) = None \<and>
       lookup (disk (snd r)) [''home'', ''reporte.txt''] = Some (File [] True) \<and>
       stdout (snd r) = [Print_list []] \<and>
       lookup (disk (snd (organize_logs (glob_log scenario_disk [''src''])
                            log_format_regex_search scenario_world)))
         (DEST_DIR @ [''auth'', ''auth_2024-01-01.log'']) = Some (File ''Error one'' True))"
  by code_simp

subsection \<open>Failures of single files\<close>

text \<open>
  C3 asks that a name the pattern does not match is a failure of that file only. The
  search returns \<^verbatim>\<open>None\<close>, \<^verbatim>\<open>group(1)\<close> raises, and the exception leaves
  \<^verbatim>\<open>organize_logs\<close>: the file after it is not routed.
\<close>

theorem organize_logs_unmatched_name:
  "organize_logs [[''src'', ''notes.log''], [''src'', ''auth_2024-01-01.log'']]
     log_format_regex_search source_world = (Some AttributeError, source_world)"
  by code_simp

text \<open>
  C2 asks that a file the audit cannot read does not stop the audit of the others. The
  \<^verbatim>\<open>try\<close> of \<^verbatim>\<open>find_error_in_logs\<close> stands around the loop: the traversal
  gives \<open>a.log\<close> and then \<open>b.log\<close>, the first cannot be read, the error is printed
  and the report stays empty although \<open>b.log\<close> can be read.
\<close>

theorem audit_stops_at_unreadable_file:
  "(let r = find_error_in_logs DEST_DIR error_count [''home'', ''reporte.txt''] audit_world
    in fst r = None \<and>
       rglob_log audit_disk DEST_DIR =
         [DEST_DIR @ [''auth'', ''a.log''], DEST_DIR @ [''auth'', ''b.log'']] \<and>
       read_text audit_disk (DEST_DIR @ [''auth'', ''b.log'']) = Inr ''error error'' \<and>
       lookup (disk (snd r)) [''home'', ''reporte.txt''] = Some (File [] True) \<and>
       stderr (snd r) = [Error PermissionError])"
  by code_simp

subsection \<open>Making directories\<close>


lemma os_mkdir_Inr:
  "os_mkdir p fs = Inr fs' \<Longrightarrow> fs' = fs @ [(p, Dir True)] \<and> lookup fs p = None"
  by (auto simp: os_mkdir_def split: if_splits option.splits node.splits)

lemma mkdir_single_Inr:
  "mkdir_single exist_ok p fs = Inr fs' \<Longrightarrow>
     (fs' = fs \<and> exist_ok \<and> is_dir fs p) \<or> (fs' = fs @ [(p, Dir True)] \<and> lookup fs p = None)"
  by (auto simp: mkdir_single_def split: sum.splits if_splits dest: os_mkdir_Inr)

lemma lookup_append:
  "lookup (fs @ gs) q = (case lookup fs q of None \<Rightarrow> lookup gs q | Some n \<Rightarrow> Some n)"
  by (simp add: lookup_def map_add_def split: option.splits)

lemma lookup_append_None:
  "lookup (fs @ gs) q = None \<longleftrightarrow> lookup fs q = None \<and> lookup gs q = None"
  by (auto simp: lookup_def)

lemma lookup_new_dirs:
  "lookup (new_dirs qs) q = (if q \<in> set qs then Some (Dir True) else None)"
  by (induction qs) (auto simp: new_dirs_def lookup_def)

lemma mkdir_Inr:
  "mkdir exist_ok p fs = Inr fs' \<Longrightarrow>
     \<exists>qs. fs' = fs @ new_dirs qs \<and> (\<forall>q \<in> set qs. prefix q p \<and> lookup fs q = None)"
proof (induction exist_ok p fs arbitrary: fs' rule: mkdir.induct)
  case (1 exist_ok p fs)
  show ?case
  proof (cases "os_mkdir p fs")
    case (Inr fs1)
    with "1.prems" have "fs' = fs1" by (simp add: mkdir.simps [of exist_ok p fs])
    with Inr have "fs' = fs @ new_dirs [p] \<and> (\<forall>q \<in> set [p]. prefix q p \<and> lookup fs q = None)"
      by (auto simp: new_dirs_def dest: os_mkdir_Inr)
    then show ?thesis by blast
  next
    case (Inl e)
    show ?thesis
    proof (cases "e = FileNotFoundError")
      case False
      with Inl "1.prems" have "fs' = fs"
        by (auto simp: mkdir.simps [of exist_ok p fs] split: if_splits)
      then have "fs' = fs @ new_dirs [] \<and> (\<forall>q \<in> set []. prefix q p \<and> lookup fs q = None)"
        by (simp add: new_dirs_def)
      then show ?thesis by blast
    next
      case True
      with Inl "1.prems" obtain fs1 where p: "p \<noteq> []"
        and up: "mkdir True (butlast p) fs = Inr fs1"
        and s: "mkdir_single exist_ok p fs1 = Inr fs'"
        by (auto simp: mkdir.simps [of exist_ok p fs] split: if_splits sum.splits)
      from "1.IH" [OF Inl True p up] obtain qs where
        qs: "fs1 = fs @ new_dirs qs" "\<forall>q \<in> set qs. prefix q (butlast p) \<and> lookup fs q = None"
        by blast
      have pre: "prefix q (butlast p) \<Longrightarrow> prefix q p" for q
        by (metis prefix_order.trans prefixeq_butlast)
      from mkdir_single_Inr [OF s] show ?thesis
      proof
        assume "fs' = fs1 \<and> exist_ok \<and> is_dir fs1 p"
        with qs pre show ?thesis by blast
      next
        assume a: "fs' = fs1 @ [(p, Dir True)] \<and> lookup fs1 p = None"
        with qs have "fs' = fs @ new_dirs (qs @ [p])" by (simp add: new_dirs_def)
        moreover from a qs have "lookup fs p = None" by (simp add: lookup_append_None)
        ultimately have "fs' = fs @ new_dirs (qs @ [p]) \<and>
            (\<forall>q \<in> set (qs @ [p]). prefix q p \<and> lookup fs q = None)"
          using qs pre by auto
        then show ?thesis by blast
      qed
    qed
  qed
qed

lemma mkdir_lookup:
  assumes "mkdir exist_ok p fs = Inr fs'"
  shows "lookup fs' q = lookup fs q \<or>
         (lookup fs q = None \<and> lookup fs' q = Some (Dir True) \<and> prefix q p)"
proof -
  from mkdir_Inr [OF assms] obtain qs where
    qs: "fs' = fs @ new_dirs qs" "\<forall>q \<in> set qs. prefix q p \<and> lookup fs q = None" by blast
  show ?thesis
  proof (cases "q \<in> set qs")
    case True
    with qs have "lookup fs q = None" "prefix q p" by auto
    moreover from True qs calculation have "lookup fs' q = Some (Dir True)"
      by (simp add: lookup_append lookup_new_dirs)
    ultimately show ?thesis by simp
  next
    case False
    with qs have "lookup fs' q = lookup fs q"
      by (simp add: lookup_append lookup_new_dirs split: option.splits)
    then show ?thesis by simp
  qed
qed


lemma mkdir_existing: "is_dir fs p \<Longrightarrow> mkdir True p fs = Inr fs"
  by (subst mkdir.simps) (auto simp: os_mkdir_def is_dir_def split: option.splits node.splits)


lemma well_formed_parent:
  assumes "well_formed fs" and "lookup fs p \<noteq> None" and "p \<noteq> []"
  shows "is_dir fs (butlast p)"
proof -
  from assms(2) obtain n where "map_of fs p = Some n" by (auto simp: lookup_def)
  then have "(p, n) \<in> set fs" by (rule map_of_SomeD)
  with assms(1,3) show ?thesis by (auto simp: well_formed_def list_all_iff)
qed

subsection \<open>A run without log files, and a collision\<close>

lemma mkdir_Inl:
  "mkdir exist_ok p fs = Inl e \<Longrightarrow>
     e = FileExistsError \<or> e = FileNotFoundError \<or> e = NotADirectoryError \<or> e = PermissionError"
proof (induction exist_ok p fs arbitrary: e rule: mkdir.induct)
  case (1 exist_ok p fs)
  have os: "os_mkdir q gs = Inl x \<Longrightarrow>
      x = FileExistsError \<or> x = FileNotFoundError \<or> x = NotADirectoryError \<or> x = PermissionError"
    for q gs x
    by (auto simp: os_mkdir_def split: if_splits option.splits node.splits)
  show ?case
  proof (cases "os_mkdir p fs")
    case (Inr fs1)
    with "1.prems" show ?thesis by (simp add: mkdir.simps [of exist_ok p fs])
  next
    case (Inl x)
    show ?thesis
    proof (cases "x = FileNotFoundError")
      case False
      with Inl "1.prems" os [OF Inl] show ?thesis
        by (auto simp: mkdir.simps [of exist_ok p fs] split: if_splits)
    next
      case True
      show ?thesis
      proof (cases "p = []")
        case True
        with Inl \<open>x = FileNotFoundError\<close> "1.prems"
        have "mkdir exist_ok [] fs = Inl e" "os_mkdir [] fs = Inl FileNotFoundError" by simp_all
        then show ?thesis by (simp add: mkdir.simps [of exist_ok "[]" fs])
      next
        case False
        show ?thesis
        proof (cases "mkdir True (butlast p) fs")
          case (Inl y)
          with \<open>os_mkdir p fs = Inl x\<close> True False "1.prems" have "e = y"
            by (simp add: mkdir.simps [of exist_ok p fs])
          with "1.IH" [OF \<open>os_mkdir p fs = Inl x\<close> True False Inl] show ?thesis by simp
        next
          case (Inr fs1)
          with \<open>os_mkdir p fs = Inl x\<close> True False "1.prems"
          have "mkdir_single exist_ok p fs1 = Inl e"
            by (simp add: mkdir.simps [of exist_ok p fs])
          then show ?thesis
            by (auto simp: mkdir_single_def split: sum.splits if_splits dest: os)
        qed
      qed
    qed
  qed
qed

lemma DEST_DIR_names:
  assumes "prefix q DEST_DIR" and "q \<noteq> []"
  shows "\<not> suffix ''.log'' (name q)"
proof -
  from assms have "q \<in> {[''home''], [''home'', ''arengifo''], [''home'', ''arengifo'', ''logs''],
      [''home'', ''arengifo'', ''logs'', ''dest'']}"
    by (auto simp: DEST_DIR_def prefix_Cons)
  then show ?thesis by (auto simp: name_def suffix_to_prefix)
qed

lemma glob_log_append: "glob_log (fs @ gs) d = glob_log fs d @ glob_log gs d"
  by (simp add: glob_log_def)

lemma glob_log_mkdir_DEST_DIR:
  assumes "mkdir exist_ok DEST_DIR fs = Inr fs'"
  shows "glob_log fs' d = glob_log fs d"
proof -
  from mkdir_Inr [OF assms] obtain qs where
    qs: "fs' = fs @ new_dirs qs" "\<forall>q \<in> set qs. prefix q DEST_DIR \<and> lookup fs q = None" by blast
  have "glob_log (new_dirs qs) d = []"
    using qs(2) DEST_DIR_names by (auto simp: glob_log_def new_dirs_def filter_empty_conv)
  with qs(1) show ?thesis by (simp add: glob_log_append)
qed

lemma ensure_dest_result:
  assumes "ensure_dest create w = (r, w1)"
  shows "only_new_dirs (disk w) (disk w1) \<and> glob_log (disk w1) d = glob_log (disk w) d \<and>
         (r \<noteq> None \<longrightarrow> exit_status r = 1)"
proof (cases "path_exists (disk w) DEST_DIR")
  case True
  with assms show ?thesis by (auto simp: ensure_dest_def only_new_dirs_def)
next
  case False
  show ?thesis
  proof (cases create)
    case False
    with \<open>\<not> path_exists (disk w) DEST_DIR\<close> assms show ?thesis
      by (auto simp: ensure_dest_def Let_def only_new_dirs_def print_err_def print_out_def
          exit_status_def)
  next
    case True
    show ?thesis
    proof (cases "mkdir False DEST_DIR (disk w)")
      case (Inl e)
      with mkdir_Inl [OF Inl] True \<open>\<not> path_exists (disk w) DEST_DIR\<close> assms show ?thesis
        by (auto simp: ensure_dest_def Let_def only_new_dirs_def print_err_def exit_status_def)
    next
      case (Inr fs1)
      with True \<open>\<not> path_exists (disk w) DEST_DIR\<close> assms
      have r: "r = None" and w1: "disk w1 = fs1"
        by (auto simp: ensure_dest_def Let_def print_err_def)
      from mkdir_lookup [OF Inr] w1 have "only_new_dirs (disk w) (disk w1)"
        by (auto simp: only_new_dirs_def)
      with glob_log_mkdir_DEST_DIR [OF Inr] r w1 show ?thesis by simp
    qed
  qed
qed

text \<open>
  C10: when the source directory exists, is a directory and has no entry whose name ends
  in \<^verbatim>\<open>.log\<close>, the run ends with exit status 1, and nothing was routed, audited or
  written: the file system differs at most by the directories made for \<^verbatim>\<open>DEST_DIR\<close>.
  When the destination exists and the report may be written, the run ends exactly at
  the message that no log files were found.
\<close>

theorem main_without_logs_exits:
  assumes "path_exists (disk w) d" and "is_dir (disk w) d" and "glob_log (disk w) d = []"
  shows "exit_status (fst (main (Some d) cwd overwrite create w)) = 1 \<and>
         only_new_dirs (disk w) (disk (snd (main (Some d) cwd overwrite create w))) \<and>
         (if path_exists (disk w) DEST_DIR \<and> (overwrite \<or> lookup (disk w) (cwd @ [''reporte.txt'']) = None)
          then main (Some d) cwd overwrite create w =
                 (Some (SystemExit 1), print_err (No_log_files d) w)
          else True)"
proof -
  have exact: "main (Some d) cwd overwrite create w =
      (Some (SystemExit 1), print_err (No_log_files d) w)"
    if "path_exists (disk w) DEST_DIR"
      and "overwrite \<or> lookup (disk w) (cwd @ [''reporte.txt'']) = None"
    using that assms
    by (auto simp: main_def Let_def path_exists_def ensure_dest_def scan_logs_routes_nothing
        scan_except_def)
  have status: "exit_status (fst (main (Some d) cwd overwrite create w)) = 1 \<and>
         only_new_dirs (disk w) (disk (snd (main (Some d) cwd overwrite create w)))"
  proof (cases "path_exists (disk w) (cwd @ [''reporte.txt'']) \<and> \<not> overwrite")
    case True
    with assms show ?thesis
      by (simp add: main_def Let_def exit_status_def print_out_def only_new_dirs_def)
  next
    case False
    then have no: "(path_exists (disk w) (cwd @ [''reporte.txt'']) \<and> \<not> overwrite) = False"
      by simp
    obtain r w1 where e: "ensure_dest create w = (r, w1)" by (cases "ensure_dest create w")
    from ensure_dest_result [OF e, of d] assms(3)
    have n: "only_new_dirs (disk w) (disk w1)" and g: "glob_log (disk w1) d = []"
      and x: "r \<noteq> None \<longrightarrow> exit_status r = 1" by auto
    show ?thesis
    proof (cases r)
      case None
      with assms e g n show ?thesis
        by (simp add: main_def Let_def no scan_logs_routes_nothing scan_except_def
            exit_status_def print_err_def)
    next
      case (Some ex)
      with assms e x n show ?thesis by (simp add: main_def Let_def no)
    qed
  qed
  from exact status show ?thesis by simp
qed

theorem main_without_logs_exits_witness:
  "exit_status (fst (main (Some [''src'']) [''home''] True True empty_source_world)) = 1 \<and>
   lookup (disk (snd (main (Some [''src'']) [''home''] True True empty_source_world)))
     [''home'', ''reporte.txt''] = None \<and>
   stderr (snd (main (Some [''src'']) [''home''] True True empty_source_world)) =
     [Cannot_access_dest, No_log_files [''src'']]"
proof -
  have 1: "path_exists (disk empty_source_world) [''src'']" by code_simp
  have 2: "is_dir (disk empty_source_world) [''src'']" by code_simp
  have 3: "glob_log (disk empty_source_world) [''src''] = []" by code_simp
  have 4: "lookup (disk (snd (main (Some [''src'']) [''home''] True True empty_source_world)))
     [''home'', ''reporte.txt''] = None" by code_simp
  have 5: "stderr (snd (main (Some [''src'']) [''home''] True True empty_source_world)) =
     [Cannot_access_dest, No_log_files [''src'']]" by code_simp
  from main_without_logs_exits [OF 1 2 3, of "[''home'']" True True] 4 5
  show ?thesis by simp
qed

text \<open>
  C6: when the destination path of a file already exists, the pass of the loop leaves
  the file system as it was (the destination keeps its content, the source stays where it
  is), prints the warning, and the loop goes on with the next file.
\<close>

theorem organize_logs_collision:
  assumes "log_regex (name log) = Some s" and "well_formed (disk w)"
    and "path_exists (disk w) (DEST_DIR @ service_path s @ [name log])"
  shows "organize_log log_regex log w =
           (None, print_err (Warning_exists (DEST_DIR @ service_path s @ [name log])) w) \<and>
         disk (snd (organize_log log_regex log w)) = disk w \<and>
         organize_logs (log # logs) log_regex w =
           organize_logs logs log_regex
             (print_err (Warning_exists (DEST_DIR @ service_path s @ [name log])) w)"
proof -
  let ?dest = "DEST_DIR @ service_path s @ [name log]"
  from assms(3) have "lookup (disk w) ?dest \<noteq> None" by (simp add: path_exists_def)
  with assms(2) have "is_dir (disk w) (butlast ?dest)"
    by (rule well_formed_parent) simp
  then have "is_dir (disk w) (DEST_DIR @ service_path s)"
    by (simp add: butlast_append)
  then have "mkdir True (DEST_DIR @ service_path s) (disk w) = Inr (disk w)"
    by (rule mkdir_existing)
  with assms(1,3) have 1: "organize_log log_regex log w = (None, print_err (Warning_exists ?dest) w)"
    by (simp add: organize_log_def Let_def)
  then show ?thesis by (simp add: print_err_def)
qed

theorem organize_logs_collision_witness:
  "organize_log log_format_regex_search [''src'', ''auth_2024-01-01.log''] collision_world =
     (None, print_err (Warning_exists (DEST_DIR @ [''auth'', ''auth_2024-01-01.log''])) collision_world) \<and>
   lookup (disk (snd (organize_log log_format_regex_search [''src'', ''auth_2024-01-01.log'']
     collision_world))) (DEST_DIR @ [''auth'', ''auth_2024-01-01.log'']) = Some (File ''first copy'' True) \<and>
   lookup (disk (snd (organize_log log_format_regex_search [''src'', ''auth_2024-01-01.log'']
     collision_world))) [''src'', ''auth_2024-01-01.log''] = Some (File ''second copy'' True)"
proof -
  have 1: "log_format_regex_search (name [''src'', ''auth_2024-01-01.log'']) = Some ''auth''"
    by code_simp
  have 2: "well_formed (disk collision_world)" by code_simp
  have 3: "path_exists (disk collision_world)
      (DEST_DIR @ service_path ''auth'' @ [name [''src'', ''auth_2024-01-01.log'']])"
    by code_simp
  have 4: "DEST_DIR @ service_path ''auth'' @ [name [''src'', ''auth_2024-01-01.log'']] =
      DEST_DIR @ [''auth'', ''auth_2024-01-01.log'']" by code_simp
  have 5: "lookup (disk collision_world) (DEST_DIR @ [''auth'', ''auth_2024-01-01.log'']) =
      Some (File ''first copy'' True)" by code_simp
  have 6: "lookup (disk collision_world) [''src'', ''auth_2024-01-01.log''] =
      Some (File ''second copy'' True)" by code_simp
  from organize_logs_collision [of log_format_regex_search "[''src'', ''auth_2024-01-01.log'']"
      "''auth''" collision_world "[]"] 1 2 3
  show ?thesis unfolding 4 using 5 6 by (simp add: print_err_def)
qed

subsection \<open>The report\<close>

lemma lookup_update:
  "lookup (AList.update k v fs) q = (if q = k then Some v else lookup fs q)"
  by (simp add: lookup_def update_conv')

lemma keys_update:
  "map fst (AList.update k v fs) = (if lookup fs k = None then map fst fs @ [k] else map fst fs)"
  by (auto simp: lookup_def update_keys map_of_eq_None_iff)

lemma open_w_Inr:
  assumes "open_w p fs = Inr fs1"
  shows "lookup fs1 q = (if q = p then Some (File [] True) else lookup fs q)"
    and "map fst fs1 = (if lookup fs p = None then map fst fs @ [p] else map fst fs)"
  using assms
  by (auto simp: open_w_def lookup_update keys_update split: option.splits node.splits if_splits)

lemma rglob_log_open_w:
  assumes "open_w p fs = Inr fs1" and "\<not> suffix ''.log'' (name p)"
  shows "rglob_log fs1 d = rglob_log fs d"
  using open_w_Inr(2) [OF assms(1)] assms(2) by (simp add: rglob_log_def)

lemma read_text_cong:
  "lookup fs' p = lookup fs p \<Longrightarrow> read_text fs' p = read_text fs p"
  by (simp add: read_text_def)

lemma lookup_file_write:
  "lookup fs p = Some (File c b) \<Longrightarrow>
   lookup (file_write p s fs) q = (if q = p then Some (File (c @ s) b) else lookup fs q)"
  by (simp add: file_write_def lookup_update)

lemma audit_logs_report:
  assumes "lookup fs report_file = Some (File acc b)"
    and "report_file \<notin> set logfiles"
    and "\<forall>p \<in> set logfiles. readable fs p"
  shows "\<exists>fs'. audit_logs logfiles error_regex report_file fs = (None, fs') \<and>
           lookup fs' report_file =
             Some (File (acc @ concat (map (\<lambda>p. report_line (name p) (error_regex (file_text fs p)))
                                        logfiles)) b) \<and>
           (\<forall>q. q \<noteq> report_file \<longrightarrow> lookup fs' q = lookup fs q)"
  using assms
proof (induction logfiles arbitrary: fs acc)
  case Nil
  then show ?case by simp
next
  case (Cons logfile logfiles)
  from Cons.prems obtain c0 where t: "read_text fs logfile = Inr c0"
    by (auto simp: readable_def split: sum.splits)
  let ?line = "report_line (name logfile) (error_regex c0)"
  let ?fs1 = "file_write report_file ?line fs"
  have l: "lookup ?fs1 q = (if q = report_file then Some (File (acc @ ?line) b) else lookup fs q)"
    for q
    using Cons.prems(1) by (rule lookup_file_write)
  have same: "read_text ?fs1 p = read_text fs p" if "p \<noteq> report_file" for p
    using that by (simp add: read_text_def l)
  have ne: "p \<noteq> report_file" if "p \<in> set logfiles" for p
    using that Cons.prems(2) by auto
  have "\<forall>p \<in> set logfiles. readable ?fs1 p"
    using Cons.prems(3) by (simp add: readable_def same ne)
  moreover have "lookup ?fs1 report_file = Some (File (acc @ ?line) b)" by (simp add: l)
  moreover have "report_file \<notin> set logfiles" using Cons.prems(2) by simp
  ultimately obtain fs' where
    r: "audit_logs logfiles error_regex report_file ?fs1 = (None, fs')"
    and c: "lookup fs' report_file =
             Some (File ((acc @ ?line) @ concat (map (\<lambda>p. report_line (name p)
                (error_regex (file_text ?fs1 p))) logfiles)) b)"
    and o: "\<forall>q. q \<noteq> report_file \<longrightarrow> lookup fs' q = lookup ?fs1 q"
    using Cons.IH [of ?fs1 "acc @ ?line"] by blast
  have maps: "map (\<lambda>p. report_line (name p) (error_regex (file_text ?fs1 p))) logfiles =
        map (\<lambda>p. report_line (name p) (error_regex (file_text fs p))) logfiles"
    by (rule map_cong [OF refl]) (simp add: file_text_def same ne)
  from t have head: "file_text fs logfile = c0" by (simp add: file_text_def)
  from c have "lookup fs' report_file =
      Some (File ((acc @ ?line) @ concat (map (\<lambda>p. report_line (name p)
        (error_regex (file_text fs p))) logfiles)) b)"
    by (simp only: maps)
  with head have "lookup fs' report_file =
      Some (File (acc @ concat (map (\<lambda>p. report_line (name p) (error_regex (file_text fs p)))
        (logfile # logfiles))) b)"
    by simp
  moreover from r t have "audit_logs (logfile # logfiles) error_regex report_file fs = (None, fs')"
    by simp
  moreover from o l have "\<forall>q. q \<noteq> report_file \<longrightarrow> lookup fs' q = lookup fs q" by simp
  ultimately show ?case by blast
qed

text \<open>
  C9: when the report can be opened and every log file below the directory can be read,
  \<^verbatim>\<open>find_error_in_logs\<close> ends normally and the report holds, whatever it held before,
  exactly one line per file, in the order of the traversal, each of the form
  \<^verbatim>\<open><name>: <count> errores\<close> with a line break. (The report is not itself a log
  file: the script names it \<^verbatim>\<open>reporte.txt\<close>.)
\<close>

theorem report_has_one_line_per_file:
  assumes "open_w report_file (disk w) = Inr fs1"
    and "\<not> suffix ''.log'' (name report_file)"
    and "\<forall>p \<in> set (rglob_log (disk w) new_logdir). readable (disk w) p"
  shows "fst (find_error_in_logs new_logdir error_regex report_file w) = None \<and>
         read_text (disk (snd (find_error_in_logs new_logdir error_regex report_file w))) report_file =
           Inr (concat (map (\<lambda>p. report_line (name p) (error_regex (file_text (disk w) p)))
                  (rglob_log (disk w) new_logdir))) \<and>
         report_line file_name n = file_name @ '': '' @ str_nat n @ '' errores'' @ [newline]"
proof -
  let ?files = "rglob_log (disk w) new_logdir"
  have files: "rglob_log fs1 new_logdir = ?files"
    using assms(1,2) by (rule rglob_log_open_w)
  have notin: "report_file \<notin> set ?files"
    using assms(2) by (auto simp: rglob_log_def)
  have l1: "lookup fs1 q = (if q = report_file then Some (File [] True) else lookup (disk w) q)" for q
    using assms(1) by (rule open_w_Inr(1))
  have same: "read_text fs1 p = read_text (disk w) p" if "p \<noteq> report_file" for p
    using that by (simp add: read_text_def l1)
  have ne: "p \<noteq> report_file" if "p \<in> set ?files" for p
    using that notin by auto
  have "\<forall>p \<in> set ?files. readable fs1 p"
    using assms(3) by (simp add: readable_def same ne)
  moreover have "lookup fs1 report_file = Some (File [] True)" by (simp add: l1)
  ultimately obtain fs2 where
    r: "audit_logs ?files error_regex report_file fs1 = (None, fs2)"
    and c: "lookup fs2 report_file =
             Some (File ([] @ concat (map (\<lambda>p. report_line (name p)
                (error_regex (file_text fs1 p))) ?files)) True)"
    using audit_logs_report [of fs1 report_file "[]" True ?files error_regex] notin by blast
  have maps: "map (\<lambda>p. report_line (name p) (error_regex (file_text fs1 p))) ?files =
        map (\<lambda>p. report_line (name p) (error_regex (file_text (disk w) p))) ?files"
    by (rule map_cong [OF refl]) (simp add: file_text_def same ne)
  from c have "lookup fs2 report_file =
      Some (File ([] @ concat (map (\<lambda>p. report_line (name p)
        (error_regex (file_text (disk w) p))) ?files)) True)"
    by (simp only: maps)
  then have "read_text fs2 report_file =
      Inr (concat (map (\<lambda>p. report_line (name p) (error_regex (file_text (disk w) p))) ?files))"
    by (simp add: read_text_def)
  moreover from r files assms(1)
  have "find_error_in_logs new_logdir error_regex report_file w = (None, w\<lparr>disk := fs2\<rparr>)"
    by (simp add: find_error_in_logs_def)
  ultimately show ?thesis by (simp add: report_line_def)
qed

theorem report_has_one_line_per_file_witness:
  "fst (find_error_in_logs DEST_DIR error_count [''home'', ''reporte.txt''] report_world) = None \<and>
   read_text (disk (snd (find_error_in_logs DEST_DIR error_count [''home'', ''reporte.txt'']
       report_world))) [''home'', ''reporte.txt''] =
     Inr (''a.log: 2 errores'' @ [newline] @ ''b.log: 0 errores'' @ [newline])"
proof -
  have 1: "open_w [''home'', ''reporte.txt''] (disk report_world) =
      Inr (AList.update [''home'', ''reporte.txt''] (File [] True) report_disk)" by code_simp
  have 2: "\<not> suffix ''.log'' (name [''home'', ''reporte.txt''])" by code_simp
  have 3: "\<forall>p \<in> set (rglob_log (disk report_world) DEST_DIR). readable (disk report_world) p"
    by code_simp
  have 4: "concat (map (\<lambda>p. report_line (name p) (error_count (file_text (disk report_world) p)))
       (rglob_log (disk report_world) DEST_DIR)) =
     ''a.log: 2 errores'' @ [newline] @ ''b.log: 0 errores'' @ [newline]" by code_simp
  from report_has_one_line_per_file [OF 1 2 3, of error_count] show ?thesis
    unfolding 4 by simp
qed

subsection \<open>Running the routing twice\<close>




















end
